theory Spec2Isabelle
  imports Main "HOL-Library.Sublist"
begin

section \<open>JavaScript values and strings\<close>

text \<open>
  The source holds two revisions of the Cloud Function that proxies \<^verbatim>\<open>/api/*\<close> to the
  NeuralGraph API. The later one is modelled here: it adds \<^verbatim>\<open>POST /v1/spaces\<close> to the
  whitelist and the \<^verbatim>\<open>X-Tenant-ID\<close> header to the upstream request; \<^verbatim>\<open>verifyAuth\<close>,
  \<^verbatim>\<open>isPathAllowed\<close>, \<^verbatim>\<open>enforceSpaceIds\<close> and \<^verbatim>\<open>extractSpaceIdFromPath\<close> are the same in
  both.

  The function receives request bodies of type \<^verbatim>\<open>unknown\<close>: any JSON value. The proxy
  never computes with a number; it can only convert one to a string, so a number is held
  as the text that JavaScript's number-to-string conversion gives for it (\<^verbatim>\<open>5\<close>,
  \<^verbatim>\<open>0.5\<close>, \<^verbatim>\<open>1e+21\<close>). An object is an association list with one entry for each own
  property, read with \<open>map_of\<close>. The limits of the engine's resources (stack depth,
  memory) are not modelled.
\<close>

datatype json =
    JNull
  | JBool bool
  | JNum string
  | JStr string
  | JArr "json list"
  | JObj "(string \<times> json) list"

text \<open>\<^verbatim>\<open>s.startsWith(p)\<close> and \<^verbatim>\<open>s.includes(p)\<close> on strings.\<close>

definition startsWith :: "string \<Rightarrow> string \<Rightarrow> bool" where
  "startsWith s p = prefix p s"

fun includes_str :: "string \<Rightarrow> string \<Rightarrow> bool" where
  "includes_str [] p = (p = [])"
| "includes_str (c # cs) p = (prefix p (c # cs) \<or> includes_str cs p)"

text \<open>\<^verbatim>\<open>xs.join(sep)\<close> on an array of strings.\<close>

fun join :: "string \<Rightarrow> string list \<Rightarrow> string" where
  "join sep [] = []"
| "join sep [x] = x"
| "join sep (x # y # ys) = x @ sep @ join sep (y # ys)"

text \<open>Decimal rendering of an HTTP status code, as a template literal does.\<close>

fun show_nat :: "nat \<Rightarrow> string" where
  "show_nat n =
     (if n < 10 then [''0123456789'' ! n]
      else show_nat (n div 10) @ [''0123456789'' ! (n mod 10)])"

declare show_nat.simps [simp del]

text \<open>
  JavaScript's \<^verbatim>\<open>ToString\<close> on a JSON value; \<open>None\<close> is the \<^verbatim>\<open>TypeError\<close> it throws.
  An array is converted by \<^verbatim>\<open>Array.prototype.join\<close> with a comma, which converts each
  element and takes \<^verbatim>\<open>null\<close> as the empty string. An object is converted by its
  \<^verbatim>\<open>toString\<close> method: the inherited one gives \<^verbatim>\<open>[object Object]\<close>; an own property
  \<^verbatim>\<open>toString\<close>, which in a JSON value is never callable, hides it, the inherited
  \<^verbatim>\<open>valueOf\<close> returns the object itself, and the conversion throws. Numbers,
  booleans, strings and \<^verbatim>\<open>null\<close> always convert. The engine's stack is not modelled:
  an array nested deeper than the stack allows makes the conversion throw a
  \<^verbatim>\<open>RangeError\<close>, where this function returns a string.
\<close>

fun js_toString :: "json \<Rightarrow> string option" where
  "js_toString JNull = Some ''null''"
| "js_toString (JBool b) = Some (if b then ''true'' else ''false'')"
| "js_toString (JNum text) = Some text"
| "js_toString (JStr s) = Some s"
| "js_toString (JArr xs) =
     map_option (join '','')
       (those (map (\<lambda>x. if x = JNull then Some [] else js_toString x) xs))"
| "js_toString (JObj kvs) =
     (if map_of kvs ''toString'' \<noteq> None then None else Some ''[object Object]'')"

text \<open>\<^verbatim>\<open>xs.join(sep)\<close> on an array of JSON values; \<open>None\<close> when an element's conversion
  throws.\<close>

definition js_join :: "string \<Rightarrow> json list \<Rightarrow> string option" where
  "js_join sep xs =
     map_option (join sep)
       (those (map (\<lambda>x. if x = JNull then Some [] else js_toString x) xs))"

text \<open>The message of the \<^verbatim>\<open>TypeError\<close> that a failed conversion throws (V8's wording).\<close>

definition cannot_convert_message :: string where
  "cannot_convert_message = ''Cannot convert object to primitive value''"

text \<open>
  \<^verbatim>\<open>body.k\<close> on a value typed \<^verbatim>\<open>Record<string, unknown>\<close>: the property of an object,
  \<^verbatim>\<open>undefined\<close> (here \<open>None\<close>) when it is absent. The body can be an array at run time
  (\<^verbatim>\<open>typeof [] === "object"\<close>); an array has neither \<^verbatim>\<open>space_ids\<close> nor \<^verbatim>\<open>space_id\<close>.
\<close>

fun field :: "json \<Rightarrow> string \<Rightarrow> json option" where
  "field (JObj kvs) k = map_of kvs k"
| "field _ k = None"

fun isArray :: "json option \<Rightarrow> bool" where
  "isArray (Some (JArr xs)) = True"
| "isArray _ = False"

fun isString :: "json option \<Rightarrow> bool" where
  "isString (Some (JStr s)) = True"
| "isString _ = False"

text \<open>
  \<^verbatim>\<open>allowedSpaceIds.includes(id)\<close> on a \<^verbatim>\<open>string[]\<close>: the element of \<^verbatim>\<open>body.space_ids\<close>
  is cast to \<^verbatim>\<open>string\<close> without a check, so it can be any value; only a string can be
  equal to a member of a string array.
\<close>

fun allowedIncludes :: "string list \<Rightarrow> json \<Rightarrow> bool" where
  "allowedIncludes allowed (JStr s) = (s \<in> set allowed)"
| "allowedIncludes allowed _ = False"

section \<open>The proxy's space check on the request body\<close>

text \<open>
  \<^verbatim>\<open>
  function enforceSpaceIds(body, allowedSpaceIds): void {
    if (Array.isArray(body.space_ids)) {
      const requested = body.space_ids as string[];
      const disallowed = requested.filter((id) => !allowedSpaceIds.includes(id));
      if (disallowed.length > 0) {
        throw new Error(`Access denied to space(s): ${disallowed.join(", ")}`);
      }
    }
    if (typeof body.space_id === "string") {
      if (!allowedSpaceIds.includes(body.space_id)) {
        throw new Error(`Access denied to space: ${body.space_id}`);
      }
    }
  }
  \<close>
  The thrown error is \<open>Inl\<close> of its message. \<open>check_space_ids\<close> is the first \<^verbatim>\<open>if\<close>
  statement and \<open>check_space_id\<close> the second, which runs when the first has not thrown.
  In the first, the template literal evaluates \<^verbatim>\<open>disallowed.join(", ")\<close> before the
  \<^verbatim>\<open>Error\<close> is built: when the join throws, its \<^verbatim>\<open>TypeError\<close> is what leaves the
  function.
\<close>

definition check_space_ids :: "json \<Rightarrow> string list \<Rightarrow> string + unit" where
  "check_space_ids body allowedSpaceIds =
     (case field body ''space_ids'' of
        Some (JArr requested) \<Rightarrow>
          (let disallowed = filter (\<lambda>id. \<not> allowedIncludes allowedSpaceIds id) requested
           in if length disallowed > 0
              then (case js_join '', '' disallowed of
                      None \<Rightarrow> Inl cannot_convert_message
                    | Some joined \<Rightarrow> Inl (''Access denied to space(s): '' @ joined))
              else Inr ())
      | _ \<Rightarrow> Inr ())"

definition check_space_id :: "json \<Rightarrow> string list \<Rightarrow> string + unit" where
  "check_space_id body allowedSpaceIds =
     (case field body ''space_id'' of
        Some (JStr s) \<Rightarrow>
          (if s \<notin> set allowedSpaceIds
           then Inl (''Access denied to space: '' @ s)
           else Inr ())
      | _ \<Rightarrow> Inr ())"

definition enforceSpaceIds :: "json \<Rightarrow> string list \<Rightarrow> string + unit" where
  "enforceSpaceIds body allowedSpaceIds =
     (case check_space_ids body allowedSpaceIds of
        Inl msg \<Rightarrow> Inl msg
      | Inr u \<Rightarrow> check_space_id body allowedSpaceIds)"

text \<open>The two conditions under which the function throws, as predicates on the body.\<close>

definition space_ids_violation :: "json \<Rightarrow> string list \<Rightarrow> bool" where
  "space_ids_violation body allowed =
     (case field body ''space_ids'' of
        Some (JArr requested) \<Rightarrow> list_ex (\<lambda>id. \<not> allowedIncludes allowed id) requested
      | _ \<Rightarrow> False)"

definition space_id_violation :: "json \<Rightarrow> string list \<Rightarrow> bool" where
  "space_id_violation body allowed =
     (case field body ''space_id'' of
        Some (JStr s) \<Rightarrow> s \<notin> set allowed
      | _ \<Rightarrow> False)"



definition throws :: "string + unit \<Rightarrow> bool" where
  "throws r = (case r of Inl msg \<Rightarrow> True | Inr u \<Rightarrow> False)"

section \<open>The whitelist of upstream paths\<close>

text \<open>
  Every pattern of \<^verbatim>\<open>ALLOWED_PATHS\<close> is an anchored regular expression made of literal
  text and of \<^verbatim>\<open>[^/]+\<close>: a list of tokens. \<open>matches\<close> is \<^verbatim>\<open>pattern.test(path)\<close> for such
  a pattern \<^verbatim>\<open>/^...$/\<close>: \<open>Seg\<close> takes any non-empty run of characters other than the
  slash, with backtracking over the length of the run.
\<close>

datatype tok = Lit string | Seg

fun matches :: "tok list \<Rightarrow> string \<Rightarrow> bool" where
  "matches [] s = (s = [])"
| "matches (Lit l # ts) s = (prefix l s \<and> matches ts (drop (length l) s))"
| "matches (Seg # ts) s =
     list_ex (\<lambda>n. matches ts (drop n s))
       [1 ..< Suc (length (takeWhile (\<lambda>c. c \<noteq> CHR ''/'') s))]"

definition ALLOWED_PATHS :: "(string \<times> tok list) list" where
  "ALLOWED_PATHS =
    [(''GET'', [Lit ''/v1/health'']),
     (''POST'', [Lit ''/v1/spaces'']),
     (''GET'', [Lit ''/v1/spaces/'', Seg]),
     (''POST'', [Lit ''/v1/spaces/'', Seg, Lit ''/ingest'']),
     (''POST'', [Lit ''/v1/hydrate'']),
     (''POST'', [Lit ''/v1/feedback'']),
     (''GET'', [Lit ''/v1/jobs'']),
     (''GET'', [Lit ''/v1/jobs/'', Seg]),
     (''GET'', [Lit ''/v1/profiles/'', Seg]),
     (''PUT'', [Lit ''/v1/profiles/'', Seg, Lit ''/user'']),
     (''PUT'', [Lit ''/v1/profiles/'', Seg, Lit ''/ai'']),
     (''GET'', [Lit ''/v1/profiles/'', Seg, Lit ''/ai/spaces/'', Seg]),
     (''PUT'', [Lit ''/v1/profiles/'', Seg, Lit ''/ai/spaces/'', Seg])]"

text \<open>
  \<^verbatim>\<open>
  function isPathAllowed(method: string, path: string): boolean {
    return ALLOWED_PATHS.some(
      (rule) => rule.method === method && rule.pattern.test(path));
  }
  \<close>
\<close>

definition isPathAllowed :: "string \<Rightarrow> string \<Rightarrow> bool" where
  "isPathAllowed method path =
     list_ex (\<lambda>rule. fst rule = method \<and> matches (snd rule) path) ALLOWED_PATHS"

text \<open>
  \<^verbatim>\<open>
  function extractSpaceIdFromPath(path: string): string | null {
    const match = path.match(/^\/v1\/spaces\/([^/]+)\//);
    return match ? match[1] : null;
  }
  \<close>
  The pattern is anchored at the start only. The group is a non-empty run of characters
  other than the slash and a slash has to follow it, so the group is the whole run.
\<close>

definition extractSpaceIdFromPath :: "string \<Rightarrow> string option" where
  "extractSpaceIdFromPath path =
     (if prefix ''/v1/spaces/'' path
      then (let rest = drop (length ''/v1/spaces/'') path;
                sid = takeWhile (\<lambda>c. c \<noteq> CHR ''/'') rest
            in if sid \<noteq> [] \<and> length sid < length rest then Some sid else None)
      else None)"

section \<open>Authentication\<close>

text \<open>
  The request as the handlers see it. Node gives header names in lower case.
\<close>

record request =
  req_method :: string
  req_headers :: "(string \<times> string) list"
  req_body :: "json option"

text \<open>
  The custom claims of a decoded Firebase ID token, each absent or present, with the
  types that \<^verbatim>\<open>UserClaims\<close> declares (the code casts without a check).
\<close>

record decoded_token =
  tok_ngTenant :: "string option"
  tok_ngUserId :: "string option"
  tok_ngSpaceIds :: "string list option"

record UserClaims =
  ngTenant :: string
  ngUserId :: string
  ngSpaceIds :: "string list"

record fetch_call =
  fc_url :: string
  fc_method :: string
  fc_headers :: "(string \<times> string) list"
  fc_body :: "json option"

record upstream_response =
  up_status :: nat
  up_text :: string

text \<open>
  What the function takes from outside: Firebase's \<^verbatim>\<open>verifyIdToken\<close> (the message of
  the error it throws, or the decoded token), the secret \<^verbatim>\<open>NG_API_KEY\<close>, the network
  (\<^verbatim>\<open>fetch\<close> followed by \<^verbatim>\<open>text()\<close>: the message of the error thrown, or status and
  text), and \<^verbatim>\<open>JSON.parse\<close> (\<open>None\<close> when it throws).
\<close>

record env =
  verifyIdToken :: "string \<Rightarrow> string + decoded_token"
  ngApiKey :: string
  fetch :: "fetch_call \<Rightarrow> string + upstream_response"
  JSON_parse :: "string \<Rightarrow> json option"

text \<open>JavaScript's \<^verbatim>\<open>!x\<close> on a claim: a missing claim and the empty string are falsy,
  an array, also the empty one, is truthy.\<close>

definition falsy_string :: "string option \<Rightarrow> bool" where
  "falsy_string v = (v = None \<or> v = Some [])"

definition missing_claims_message :: string where
  "missing_claims_message =
     ''Missing sandbox claims '' @ [CHR 0xE2, CHR 0x80, CHR 0x94] @
     '' contact admin for access''"

text \<open>
  \<^verbatim>\<open>
  async function verifyAuth(req): Promise<UserClaims> {
    const authHeader = req.headers.authorization;
    if (!authHeader?.startsWith("Bearer ")) {
      throw new Error("Missing or invalid Authorization header");
    }
    const token = authHeader.slice(7);
    const decoded = await getAuth().verifyIdToken(token);
    const claims = decoded as Record<string, unknown>;
    if (!claims.ngTenant || !claims.ngUserId || !claims.ngSpaceIds) {
      throw new Error("Missing sandbox claims - contact admin for access");
    }
    return { ngTenant: ..., ngUserId: ..., ngSpaceIds: ... };
  }
  \<close>
\<close>

definition verifyAuth :: "env \<Rightarrow> request \<Rightarrow> string + UserClaims" where
  "verifyAuth e req =
     (case map_of (req_headers req) ''authorization'' of
        None \<Rightarrow> Inl ''Missing or invalid Authorization header''
      | Some authHeader \<Rightarrow>
          if \<not> startsWith authHeader ''Bearer ''
          then Inl ''Missing or invalid Authorization header''
          else (case verifyIdToken e (drop 7 authHeader) of
                  Inl msg \<Rightarrow> Inl msg
                | Inr claims \<Rightarrow>
                    if falsy_string (tok_ngTenant claims) \<or> falsy_string (tok_ngUserId claims)
                       \<or> tok_ngSpaceIds claims = None
                    then Inl missing_claims_message
                    else Inr \<lparr>ngTenant = the (tok_ngTenant claims),
                              ngUserId = the (tok_ngUserId claims),
                              ngSpaceIds = the (tok_ngSpaceIds claims)\<rparr>))"

section \<open>The proxy handler\<close>

record response =
  res_status :: nat
  res_headers :: "(string \<times> string) list"
  res_json :: json

definition NG_API_BASE :: string where
  "NG_API_BASE = ''https://api.neuralgraph.app''"

text \<open>The \<^verbatim>\<open>catch\<close> block of \<^verbatim>\<open>handleProxy\<close>: the status is chosen from the message.\<close>

definition catch_status :: "string \<Rightarrow> nat" where
  "catch_status message =
     (if includes_str message ''Access denied'' \<or> includes_str message ''not allowed''
      then 403
      else if includes_str message ''Missing'' \<or> includes_str message ''invalid''
      then 401
      else 500)"

definition error_json :: "string \<Rightarrow> json" where
  "error_json message = JObj [(''error'', JStr message)]"

definition catch_response :: "string \<Rightarrow> response" where
  "catch_response message =
     \<lparr>res_status = catch_status message, res_headers = [], res_json = error_json message\<rparr>"

text \<open>
  \<^verbatim>\<open>typeof req.body === "object" && req.body !== null ? req.body : {}\<close>: objects and
  arrays are kept, everything else is replaced by the empty object.
\<close>

definition body_object :: "json option \<Rightarrow> json" where
  "body_object b =
     (case b of
        Some (JObj kvs) \<Rightarrow> JObj kvs
      | Some (JArr xs) \<Rightarrow> JArr xs
      | _ \<Rightarrow> JObj [])"

definition upstream_call :: "env \<Rightarrow> request \<Rightarrow> string \<Rightarrow> UserClaims \<Rightarrow> json \<Rightarrow> fetch_call" where
  "upstream_call e req path claims body =
     \<lparr>fc_url = NG_API_BASE @ path,
      fc_method = req_method req,
      fc_headers =
        [(''X-API-Key'', ngApiKey e),
         (''Content-Type'', ''application/json''),
         (''X-User-ID'', ngUserId claims),
         (''X-Tenant-ID'', ngTenant claims)],
      fc_body =
        (if req_method req \<noteq> ''GET'' \<and> req_method req \<noteq> ''HEAD'' then Some body else None)\<rparr>"

definition relay_response :: "env \<Rightarrow> upstream_response \<Rightarrow> response" where
  "relay_response e up =
     (let hs = [(''Content-Type'', ''application/json'')]
      in if up_text up = []
         then \<lparr>res_status = up_status up, res_headers = hs, res_json = JObj []\<rparr>
         else (case JSON_parse e (up_text up) of
                 Some j \<Rightarrow> \<lparr>res_status = up_status up, res_headers = hs, res_json = j\<rparr>
               | None \<Rightarrow>
                   \<lparr>res_status = up_status up, res_headers = hs,
                    res_json = error_json (''Upstream returned non-JSON (HTTP '' @
                                           show_nat (up_status up) @ '')'')\<rparr>))"

text \<open>The rest of the \<^verbatim>\<open>try\<close> block, from the body check on.\<close>

definition proxy_forward :: "env \<Rightarrow> request \<Rightarrow> string \<Rightarrow> UserClaims \<Rightarrow> fetch_call list \<times> response" where
  "proxy_forward e req path claims =
     (let body = body_object (req_body req)
      in case enforceSpaceIds body (ngSpaceIds claims) of
           Inl msg \<Rightarrow> ([], catch_response msg)
         | Inr u \<Rightarrow>
             (let call = upstream_call e req path claims body
              in case fetch e call of
                   Inl msg \<Rightarrow> ([call], catch_response msg)
                 | Inr up \<Rightarrow> ([call], relay_response e up)))"

text \<open>
  \<^verbatim>\<open>handleProxy(req, res, path)\<close>, lines 621 to 695 of the source. The result is the list
  of requests sent to the NeuralGraph API (none or one) and the response written to
  \<^verbatim>\<open>res\<close>. Every \<^verbatim>\<open>throw\<close> inside the \<^verbatim>\<open>try\<close> ends in \<open>catch_response\<close>.
\<close>

definition handleProxy :: "env \<Rightarrow> request \<Rightarrow> string \<Rightarrow> fetch_call list \<times> response" where
  "handleProxy e req path =
     (case verifyAuth e req of
        Inl msg \<Rightarrow> ([], catch_response msg)
      | Inr claims \<Rightarrow>
          if \<not> isPathAllowed (req_method req) path
          then ([], \<lparr>res_status = 403, res_headers = [],
                     res_json = error_json ''Endpoint not allowed''\<rparr>)
          else (case extractSpaceIdFromPath path of
                  Some pathSpaceId \<Rightarrow>
                    if pathSpaceId \<notin> set (ngSpaceIds claims)
                    then ([], \<lparr>res_status = 403, res_headers = [],
                               res_json = error_json (''Access denied to space: '' @ pathSpaceId)\<rparr>)
                    else proxy_forward e req path claims
                | None \<Rightarrow> proxy_forward e req path claims))"

section \<open>The service worker's fetch listener\<close>

text \<open>
  \<^verbatim>\<open>public/sw.js\<close>. A fetch event is read through the parsed URL of its request
  (\<^verbatim>\<open>new URL(event.request.url)\<close>) and the request's \<^verbatim>\<open>destination\<close>.
\<close>

record fetch_event =
  ev_pathname :: string
  ev_hostname :: string
  ev_destination :: string

text \<open>
  The browser's side: the cache storage \<open>'c\<close> with \<^verbatim>\<open>caches.match\<close> and
  \<^verbatim>\<open>caches.open(CACHE_NAME).then(cache => cache.put(...))\<close>, and the network, where
  \<open>None\<close> is a rejected \<^verbatim>\<open>fetch\<close>.
\<close>

record ('c, 'r) browser =
  caches_match :: "'c \<Rightarrow> fetch_event \<Rightarrow> 'r option"
  cache_put :: "'c \<Rightarrow> fetch_event \<Rightarrow> 'r \<Rightarrow> 'c"
  net_fetch :: "fetch_event \<Rightarrow> 'r option"

text \<open>
  What the listener does with the event: it returns without calling
  \<^verbatim>\<open>event.respondWith\<close>, so the browser handles the request as if there were no
  service worker, or it calls \<^verbatim>\<open>respondWith\<close> with a promise. \<open>RespondWith None\<close> is a
  promise that resolves with \<^verbatim>\<open>undefined\<close> or rejects.
\<close>

datatype 'r sw_outcome = NotIntercepted | RespondWith "'r option"

text \<open>
  \<^verbatim>\<open>
  self.addEventListener('fetch', (event) => {
    const url = new URL(event.request.url);
    if (url.pathname.startsWith('/api') || url.hostname.includes('googleapis')) {
      return;
    }
    event.respondWith(
      caches.match(event.request).then((cached) => {
        if (event.request.destination === 'document') {
          return fetch(event.request)
            .then((response) => {
              const clone = response.clone();
              caches.open(CACHE_NAME).then((cache) => cache.put(event.request, clone));
              return response;
            })
            .catch(() => cached);
        }
        return cached || fetch(event.request);
      })
    );
  });
  \<close>
  The result is the outcome for the event and the cache storage afterwards.
\<close>

definition on_fetch :: "('c, 'r) browser \<Rightarrow> fetch_event \<Rightarrow> 'c \<Rightarrow> 'r sw_outcome \<times> 'c" where
  "on_fetch b ev c =
     (if startsWith (ev_pathname ev) ''/api'' \<or> includes_str (ev_hostname ev) ''googleapis''
      then (NotIntercepted, c)
      else (let cached = caches_match b c ev
            in if ev_destination ev = ''document''
               then (case net_fetch b ev of
                       Some response \<Rightarrow> (RespondWith (Some response), cache_put b c ev response)
                     | None \<Rightarrow> (RespondWith cached, c))
               else (case cached of
                       Some r \<Rightarrow> (RespondWith (Some r), c)
                     | None \<Rightarrow> (RespondWith (net_fetch b ev), c))))"

section \<open>Concrete environments and requests\<close>

text \<open>
  A Firebase verifier that accepts the token \<open>good\<close> for a user of tenant \<open>t1\<close> with the
  single space \<open>mine\<close> and rejects every other token as expired, and an upstream that
  answers every request with status 200 and the text \<open>{}\<close>.
\<close>

definition sample_env :: env where
  "sample_env =
     \<lparr>verifyIdToken =
        (\<lambda>t. if t = ''good''
              then Inr \<lparr>tok_ngTenant = Some ''t1'', tok_ngUserId = Some ''u1'',
                        tok_ngSpaceIds = Some [''mine'']\<rparr>
              else Inl ''Firebase ID token has expired.''),
      ngApiKey = ''secret'',
      fetch = (\<lambda>c. Inr \<lparr>up_status = 200, up_text = ''{}''\<rparr>),
      JSON_parse = (\<lambda>s. if s = ''{}'' then Some (JObj []) else None)\<rparr>"

definition sample_request :: "string \<Rightarrow> string \<Rightarrow> (string \<times> string) list \<Rightarrow> request" where
  "sample_request m token extra =
     \<lparr>req_method = m,
      req_headers = extra @ [(''authorization'', ''Bearer '' @ token)],
      req_body = None\<rparr>"


text \<open>A browser whose cache storage is an association list from pathnames to responses.\<close>

definition sample_browser :: "((string \<times> string) list, string) browser" where
  "sample_browser =
     \<lparr>caches_match = (\<lambda>c ev. map_of c (ev_pathname ev)),
      cache_put = (\<lambda>c ev r. (ev_pathname ev, r) # c),
      net_fetch = (\<lambda>ev. Some (''fresh '' @ ev_pathname ev))\<rparr>"

section \<open>The Pending Action Queue\<close>

text \<open>
  Modelled from the spec: the repository has no code for the Pending Action Queue
  (\<^verbatim>\<open>TENANT_ENCRYPTION.md\<close> plans a \<^verbatim>\<open>pending_actions\<close> table). The status of a Pending
  Action is one of pending, in-progress, done and failed (spec, section 3).
\<close>

datatype action_status = Pending | InProgress | Done | Failed

text \<open>
  Modelled from the spec: the kinds of deferred work that the spec and the design note
  name: merge execution, re-extraction and anchor regeneration.
\<close>

datatype action_kind = MergeExecution | ReExtraction | AnchorRegeneration

text \<open>
  Modelled from the spec: a Pending Action is tenant identifier, action kind, target
  entity identifiers, enqueue timestamp, status and attempt count (section 3); the
  identifier is the one \<^verbatim>\<open>markDone(actionId)\<close> and \<^verbatim>\<open>markFailed(actionId)\<close> take.
\<close>

record pending_action =
  pa_id :: nat
  pa_tenant :: string
  pa_kind :: action_kind
  pa_targets :: "string list"
  pa_enqueued :: nat
  pa_status :: action_status
  pa_attempts :: nat

text \<open>
  Modelled from the spec: the queue is the durable list of actions in enqueue order.
  Finished actions are archived, not removed, so an action's identifier is its position.
\<close>

type_synonym queue = "pending_action list"

text \<open>
  Modelled from the spec: \<^verbatim>\<open>enqueue(tenantId, kind, targetIds)\<close> creates the action
  pending, with no attempt made, at the end of the queue.
\<close>

definition enqueue :: "queue \<Rightarrow> nat \<Rightarrow> string \<Rightarrow> action_kind \<Rightarrow> string list \<Rightarrow> queue" where
  "enqueue q now tenantId kind targetIds =
     q @ [\<lparr>pa_id = length q, pa_tenant = tenantId, pa_kind = kind, pa_targets = targetIds,
           pa_enqueued = now, pa_status = Pending, pa_attempts = 0\<rparr>]"

text \<open>
  Modelled from the spec: the actions that \<^verbatim>\<open>claimAll(tenantId)\<close> takes are the tenant's
  pending ones.
\<close>

definition claimable :: "string \<Rightarrow> pending_action \<Rightarrow> bool" where
  "claimable tenantId a = (pa_tenant a = tenantId \<and> pa_status a = Pending)"

text \<open>
  Modelled from the spec: \<^verbatim>\<open>claimAll(tenantId)\<close> moves the tenant's pending actions to
  in-progress in one step and returns them, in enqueue order (section 4.4).
\<close>

definition claimAll :: "queue \<Rightarrow> string \<Rightarrow> pending_action list \<times> queue" where
  "claimAll q tenantId =
     (map (\<lambda>a. a\<lparr>pa_status := InProgress\<rparr>) (filter (claimable tenantId) q),
      map (\<lambda>a. if claimable tenantId a then a\<lparr>pa_status := InProgress\<rparr> else a) q)"

text \<open>
  Modelled from the spec: \<^verbatim>\<open>markDone(actionId)\<close> ends a claimed action: in-progress
  becomes done (section 3, lifecycle).
\<close>

definition markDone :: "queue \<Rightarrow> nat \<Rightarrow> queue" where
  "markDone q actionId =
     map (\<lambda>a. if pa_id a = actionId \<and> pa_status a = InProgress
              then a\<lparr>pa_status := Done\<rparr> else a) q"

text \<open>
  Modelled from the spec: the failure policy of section 4.4. The attempt count goes up
  by one and the action returns to pending; once the count exceeds the configured
  maximum the action is failed instead.
\<close>

definition fail_action :: "nat \<Rightarrow> pending_action \<Rightarrow> pending_action" where
  "fail_action maxAttempts a =
     a\<lparr>pa_attempts := Suc (pa_attempts a),
       pa_status := (if Suc (pa_attempts a) > maxAttempts then Failed else Pending)\<rparr>"

text \<open>
  Modelled from the spec: \<^verbatim>\<open>markFailed(actionId)\<close> applies the failure policy to a claimed
  action; like \<^verbatim>\<open>markDone\<close> it acts on an action that is in progress (the lifecycle of
  section 3 has no other way out of pending, done or failed).
\<close>

definition markFailed :: "nat \<Rightarrow> queue \<Rightarrow> nat \<Rightarrow> queue" where
  "markFailed maxAttempts q actionId =
     map (\<lambda>a. if pa_id a = actionId \<and> pa_status a = InProgress
              then fail_action maxAttempts a else a) q"

text \<open>
  Modelled from the spec: the four operations of the queue's contract as calls, and a
  run of calls, which collects what every \<^verbatim>\<open>claimAll\<close> in it returns.
\<close>

datatype queue_op =
    Enqueue nat string action_kind "string list"
  | ClaimAll string
  | MarkDone nat
  | MarkFailed nat

text \<open>
  Modelled from the spec: one call of the contract, with the configured maximum attempt
  count \<open>m\<close>; the actions returned are those of \<^verbatim>\<open>claimAll\<close>, none for the other calls.
\<close>

fun step :: "nat \<Rightarrow> queue \<Rightarrow> queue_op \<Rightarrow> pending_action list \<times> queue" where
  "step m q (Enqueue now t k ts) = ([], enqueue q now t k ts)"
| "step m q (ClaimAll t) = claimAll q t"
| "step m q (MarkDone i) = ([], markDone q i)"
| "step m q (MarkFailed i) = ([], markFailed m q i)"

text \<open>
  Modelled from the spec: a sequence of calls; the result is all the actions returned
  by its \<^verbatim>\<open>claimAll\<close> calls and the queue at the end.
\<close>

fun run :: "nat \<Rightarrow> queue \<Rightarrow> queue_op list \<Rightarrow> pending_action list \<times> queue" where
  "run m q [] = ([], q)"
| "run m q (x # xs) =
     (let (c, q') = step m q x; (cs, q'') = run m q' xs in (c @ cs, q''))"

text \<open>
  Modelled from the spec: identifiers are positions, which holds of the empty queue and
  is kept by every call.
\<close>

definition wf_queue :: "queue \<Rightarrow> bool" where
  "wf_queue q = (map pa_id q = [0 ..< length q])"

text \<open>
  Modelled from the spec: a queue with the configured maximum 1, after an action of
  tenant \<open>t1\<close> has failed once and has been claimed again, and with an untouched action
  of tenant \<open>t2\<close>.
\<close>

definition sample_queue :: queue where
  "sample_queue =
     snd (run 1 [] [Enqueue 10 ''t1'' MergeExecution [''topic-a'', ''topic-b''],
                    Enqueue 11 ''t2'' ReExtraction [''topic-c''],
                    ClaimAll ''t1'', MarkFailed 0, ClaimAll ''t1''])"

section \<open>Observations on a handler's result\<close>


section \<open>Properties of the body check\<close>

lemma filter_nonempty_iff: "length (filter P xs) > 0 \<longleftrightarrow> list_ex P xs"
  by (induction xs) auto

lemma check_space_ids_throws:
  "throws (check_space_ids body allowed) = space_ids_violation body allowed"
  by (simp add: check_space_ids_def space_ids_violation_def throws_def Let_def
        filter_nonempty_iff [symmetric] del: length_greater_0_conv
      split: option.splits json.splits)

lemma check_space_id_throws:
  "throws (check_space_id body allowed) = space_id_violation body allowed"
  by (simp add: check_space_id_def space_id_violation_def throws_def
      split: option.splits json.splits)

lemma enforceSpaceIds_throws:
  "throws (enforceSpaceIds body allowed) =
     (space_ids_violation body allowed \<or> space_id_violation body allowed)"
  using check_space_ids_throws [of body allowed] check_space_id_throws [of body allowed]
  by (simp add: enforceSpaceIds_def throws_def split: sum.splits)

text \<open>
  C9. \<open>enforceSpaceIds body allowed\<close> throws exactly when \<open>body.space_ids\<close> is an array
  with some element that is not in \<open>allowed\<close>, or \<open>body.space_id\<close> is a string that is not
  in \<open>allowed\<close>; a body whose \<open>space_ids\<close> is not an array and whose \<open>space_id\<close> is not a
  string passes with no error.
\<close>

theorem enforceSpaceIds_shape_coverage:
  "(throws (enforceSpaceIds body allowed) \<longleftrightarrow>
      (\<exists>requested. field body ''space_ids'' = Some (JArr requested) \<and>
                   (\<exists>id \<in> set requested. \<not> allowedIncludes allowed id)) \<or>
      (\<exists>s. field body ''space_id'' = Some (JStr s) \<and> s \<notin> set allowed)) \<and>
   (\<not> isArray (field body ''space_ids'') \<and> \<not> isString (field body ''space_id'')
      \<longrightarrow> enforceSpaceIds body allowed = Inr ())"
proof (intro conjI impI)
  have a: "space_ids_violation body allowed \<longleftrightarrow>
      (\<exists>requested. field body ''space_ids'' = Some (JArr requested) \<and>
                   (\<exists>id \<in> set requested. \<not> allowedIncludes allowed id))"
    by (simp add: space_ids_violation_def list_ex_iff split: option.splits json.splits)
  have b: "space_id_violation body allowed \<longleftrightarrow>
      (\<exists>s. field body ''space_id'' = Some (JStr s) \<and> s \<notin> set allowed)"
    by (simp add: space_id_violation_def split: option.splits json.splits)
  show "throws (enforceSpaceIds body allowed) \<longleftrightarrow>
      (\<exists>requested. field body ''space_ids'' = Some (JArr requested) \<and>
                   (\<exists>id \<in> set requested. \<not> allowedIncludes allowed id)) \<or>
      (\<exists>s. field body ''space_id'' = Some (JStr s) \<and> s \<notin> set allowed)"
    using enforceSpaceIds_throws [of body allowed] a b by simp
next
  assume h: "\<not> isArray (field body ''space_ids'') \<and> \<not> isString (field body ''space_id'')"
  have "\<not> space_ids_violation body allowed"
    using h by (auto simp: space_ids_violation_def split: option.splits json.splits)
  moreover have "\<not> space_id_violation body allowed"
    using h by (auto simp: space_id_violation_def split: option.splits json.splits)
  ultimately have "\<not> throws (enforceSpaceIds body allowed)"
    using enforceSpaceIds_throws [of body allowed] by simp
  then show "enforceSpaceIds body allowed = Inr ()"
    by (simp add: throws_def split: sum.splits)
qed

text \<open>
  Witness for C9: a disallowed element of \<open>space_ids\<close> and a disallowed \<open>space_id\<close>
  throw, allowed ones pass, and a body whose two fields have the other shapes passes
  although both name a space that is not allowed.
\<close>

theorem enforceSpaceIds_shape_coverage_witness:
  "throws (enforceSpaceIds (JObj [(''space_ids'', JArr [JStr ''mine'', JStr ''other''])]) [''mine'']) \<and>
   throws (enforceSpaceIds (JObj [(''space_id'', JStr ''other'')]) [''mine'']) \<and>
   \<not> throws (enforceSpaceIds (JObj [(''space_ids'', JArr [JStr ''mine'']), (''space_id'', JStr ''mine'')]) [''mine'']) \<and>
   enforceSpaceIds (JObj [(''space_ids'', JStr ''other''), (''space_id'', JArr [JStr ''other''])]) [''mine''] = Inr ()"
  using enforceSpaceIds_shape_coverage [of "JObj [(''space_ids'', JArr [JStr ''mine'', JStr ''other''])]" "[''mine'']"]
    enforceSpaceIds_shape_coverage [of "JObj [(''space_id'', JStr ''other'')]" "[''mine'']"]
    enforceSpaceIds_shape_coverage [of "JObj [(''space_ids'', JArr [JStr ''mine'']), (''space_id'', JStr ''mine'')]" "[''mine'']"]
    enforceSpaceIds_shape_coverage [of "JObj [(''space_ids'', JStr ''other''), (''space_id'', JArr [JStr ''other''])]" "[''mine'']"]
  by simp

section \<open>Strings and the path pattern\<close>

lemma includes_str_append: "includes_str (p @ s) p"
proof (cases "p @ s")
  case Nil
  then show ?thesis by simp
next
  case (Cons a l)
  have "prefix p (p @ s)" by simp
  then have "includes_str (a # l) p" using Cons by simp
  then show ?thesis using Cons by simp
qed

lemma includes_str_iff: "includes_str s p \<longleftrightarrow> (\<exists>a b. s = a @ p @ b)"
proof (induction s)
  case Nil then show ?case by auto
next
  case (Cons c cs)
  show ?case
  proof
    assume "includes_str (c # cs) p"
    then consider "prefix p (c # cs)" | "includes_str cs p" by auto
    then show "\<exists>a b. c # cs = a @ p @ b"
    proof cases
      case 1 then obtain b where "c # cs = p @ b" by (auto simp: prefix_def)
      then have "c # cs = [] @ p @ b" by simp
      then show ?thesis by blast
    next
      case 2 then obtain a b where "cs = a @ p @ b" using Cons.IH by auto
      then have "c # cs = (c # a) @ p @ b" by simp
      then show ?thesis by blast
    qed
  next
    assume "\<exists>a b. c # cs = a @ p @ b"
    then obtain a b where ab: "c # cs = a @ p @ b" by auto
    show "includes_str (c # cs) p"
    proof (cases a)
      case Nil then show ?thesis using ab includes_str_append [of p b] by simp
    next
      case (Cons x a') then have "cs = a' @ p @ b" using ab by simp
      then show ?thesis using Cons.IH by auto
    qed
  qed
qed















lemma proxy_forward_headers:
  "c \<in> set (fst (proxy_forward e req path claims)) \<Longrightarrow>
     fc_headers c = [(''X-API-Key'', ngApiKey e), (''Content-Type'', ''application/json''),
                     (''X-User-ID'', ngUserId claims), (''X-Tenant-ID'', ngTenant claims)]"
  by (auto simp: proxy_forward_def Let_def upstream_call_def split: sum.splits)

section \<open>The gate of the proxy\<close>

lemma handleProxy_auth_fail:
  "verifyAuth e req = Inl msg \<Longrightarrow> handleProxy e req path = ([], catch_response msg)"
  by (simp add: handleProxy_def)

lemma handleProxy_auth_ok:
  "verifyAuth e req = Inr claims \<Longrightarrow>
   handleProxy e req path =
     (if \<not> isPathAllowed (req_method req) path
      then ([], \<lparr>res_status = 403, res_headers = [],
                 res_json = error_json ''Endpoint not allowed''\<rparr>)
      else if (\<exists>sid. extractSpaceIdFromPath path = Some sid \<and> sid \<notin> set (ngSpaceIds claims))
      then ([], \<lparr>res_status = 403, res_headers = [],
                 res_json = error_json (''Access denied to space: '' @
                                        the (extractSpaceIdFromPath path))\<rparr>)
      else proxy_forward e req path claims)"
  by (auto simp: handleProxy_def split: option.splits)





section \<open>The proxy and the key field\<close>

lemma verifyAuth_depends:
  assumes "map_of (req_headers r1) ''authorization'' = map_of (req_headers r2) ''authorization''"
  shows "verifyAuth e r1 = verifyAuth e r2"
  unfolding verifyAuth_def assms ..

lemma upstream_call_depends:
  "req_method r1 = req_method r2 \<Longrightarrow>
   upstream_call e r1 path claims b = upstream_call e r2 path claims b"
  by (simp add: upstream_call_def)

lemma proxy_forward_depends:
  assumes "req_method r1 = req_method r2" and "req_body r1 = req_body r2"
  shows "proxy_forward e r1 path claims = proxy_forward e r2 path claims"
  unfolding proxy_forward_def upstream_call_depends [OF assms(1)] assms(2) ..

text \<open>
  C3, as amended. \<open>handleProxy\<close> reads no key field: of the request's headers only
  \<^verbatim>\<open>Authorization\<close> has any influence, so a request with and one without an
  \<^verbatim>\<open>X-Encryption-Key\<close> header get the same upstream request and the same response; and
  every upstream request carries exactly the four headers \<^verbatim>\<open>X-API-Key\<close>,
  \<^verbatim>\<open>Content-Type\<close>, \<^verbatim>\<open>X-User-ID\<close> and \<^verbatim>\<open>X-Tenant-ID\<close>, built from the secret and the
  verified claims, so no inbound header is forwarded.
\<close>

theorem handleProxy_key_field:
  "(map_of (req_headers r1) ''authorization'' = map_of (req_headers r2) ''authorization'' \<and>
    req_method r1 = req_method r2 \<and> req_body r1 = req_body r2
      \<longrightarrow> handleProxy e r1 path = handleProxy e r2 path) \<and>
   (c \<in> set (fst (handleProxy e r1 path)) \<longrightarrow>
      (\<exists>claims. verifyAuth e r1 = Inr claims \<and>
         fc_headers c = [(''X-API-Key'', ngApiKey e), (''Content-Type'', ''application/json''),
                         (''X-User-ID'', ngUserId claims), (''X-Tenant-ID'', ngTenant claims)]))"
proof (intro conjI impI)
  assume h: "map_of (req_headers r1) ''authorization'' = map_of (req_headers r2) ''authorization'' \<and>
    req_method r1 = req_method r2 \<and> req_body r1 = req_body r2"
  then have v: "verifyAuth e r1 = verifyAuth e r2" by (intro verifyAuth_depends) simp
  show "handleProxy e r1 path = handleProxy e r2 path"
  proof (cases "verifyAuth e r1")
    case (Inl msg)
    then show ?thesis using v by (simp add: handleProxy_auth_fail)
  next
    case (Inr claims)
    then have v2: "verifyAuth e r2 = Inr claims" using v by simp
    have "proxy_forward e r1 path claims = proxy_forward e r2 path claims"
      using h by (intro proxy_forward_depends) simp_all
    then show ?thesis
      using h by (auto simp: handleProxy_auth_ok [OF Inr] handleProxy_auth_ok [OF v2])
  qed
next
  assume c: "c \<in> set (fst (handleProxy e r1 path))"
  show "\<exists>claims. verifyAuth e r1 = Inr claims \<and>
         fc_headers c = [(''X-API-Key'', ngApiKey e), (''Content-Type'', ''application/json''),
                         (''X-User-ID'', ngUserId claims), (''X-Tenant-ID'', ngTenant claims)]"
  proof (cases "verifyAuth e r1")
    case (Inl msg)
    then show ?thesis using c by (simp add: handleProxy_auth_fail)
  next
    case (Inr claims)
    have "c \<in> set (fst (proxy_forward e r1 path claims))"
      using c handleProxy_auth_ok [OF Inr, of path] by (auto split: if_splits)
    then show ?thesis using Inr proxy_forward_headers by blast
  qed
qed

text \<open>
  Witness for C3: the same hydrate request with and without a key header.
\<close>

theorem handleProxy_key_field_witness:
  "handleProxy sample_env (sample_request ''POST'' ''good'' [(''x-encryption-key'', ''k1'')]) ''/v1/hydrate'' =
   handleProxy sample_env (sample_request ''POST'' ''good'' []) ''/v1/hydrate'' \<and>
   fc_headers (hd (fst (handleProxy sample_env
       (sample_request ''POST'' ''good'' [(''x-encryption-key'', ''k1'')]) ''/v1/hydrate''))) =
     [(''X-API-Key'', ''secret''), (''Content-Type'', ''application/json''),
      (''X-User-ID'', ''u1''), (''X-Tenant-ID'', ''t1'')]"
proof -
  let ?r1 = "sample_request ''POST'' ''good'' [(''x-encryption-key'', ''k1'')]"
  let ?r2 = "sample_request ''POST'' ''good'' []"
  have a: "map_of (req_headers ?r1) ''authorization'' = map_of (req_headers ?r2) ''authorization''"
          "req_method ?r1 = req_method ?r2" "req_body ?r1 = req_body ?r2"
    by (simp_all add: sample_request_def)
  have v: "verifyAuth sample_env ?r1 =
             Inr \<lparr>ngTenant = ''t1'', ngUserId = ''u1'', ngSpaceIds = [''mine'']\<rparr>"
    by code_simp
  have f: "fst (handleProxy sample_env ?r1 ''/v1/hydrate'') =
     [\<lparr>fc_url = ''https://api.neuralgraph.app/v1/hydrate'', fc_method = ''POST'',
       fc_headers = [(''X-API-Key'', ''secret''), (''Content-Type'', ''application/json''),
                     (''X-User-ID'', ''u1''), (''X-Tenant-ID'', ''t1'')],
       fc_body = Some (JObj [])\<rparr>]"
    by code_simp
  have m: "hd (fst (handleProxy sample_env ?r1 ''/v1/hydrate'')) \<in>
             set (fst (handleProxy sample_env ?r1 ''/v1/hydrate''))"
    by (simp only: f list.sel list.set insertI1)
  have k: "ngApiKey sample_env = ''secret''" by (simp add: sample_env_def)
  note t = handleProxy_key_field [of ?r1 ?r2 sample_env "''/v1/hydrate''"
        "hd (fst (handleProxy sample_env ?r1 ''/v1/hydrate''))"]
  have e1: "handleProxy sample_env ?r1 ''/v1/hydrate'' = handleProxy sample_env ?r2 ''/v1/hydrate''"
    by (rule t [THEN conjunct1, THEN mp]) (intro conjI a)
  have "\<exists>claims. verifyAuth sample_env ?r1 = Inr claims \<and>
         fc_headers (hd (fst (handleProxy sample_env ?r1 ''/v1/hydrate''))) =
           [(''X-API-Key'', ngApiKey sample_env), (''Content-Type'', ''application/json''),
            (''X-User-ID'', ngUserId claims), (''X-Tenant-ID'', ngTenant claims)]"
    by (rule t [THEN conjunct2, THEN mp]) (rule m)
  then obtain claims where cl: "verifyAuth sample_env ?r1 = Inr claims"
    and hs: "fc_headers (hd (fst (handleProxy sample_env ?r1 ''/v1/hydrate''))) =
           [(''X-API-Key'', ngApiKey sample_env), (''Content-Type'', ''application/json''),
            (''X-User-ID'', ngUserId claims), (''X-Tenant-ID'', ngTenant claims)]"
    by (elim exE conjE)
  have "claims = \<lparr>ngTenant = ''t1'', ngUserId = ''u1'', ngSpaceIds = [''mine'']\<rparr>"
    using cl v by simp
  then have e2: "fc_headers (hd (fst (handleProxy sample_env ?r1 ''/v1/hydrate''))) =
     [(''X-API-Key'', ''secret''), (''Content-Type'', ''application/json''),
      (''X-User-ID'', ''u1''), (''X-Tenant-ID'', ''t1'')]"
    using hs k by simp
  show ?thesis using e1 e2 by (rule conjI)
qed

text \<open>
  Counterexample to C3 as stated: a hydrate request that carries no key field is not
  refused with a missing-key error; it is forwarded and answered with the upstream's
  status 200.
\<close>

theorem handleProxy_key_field_counterexample:
  "map_of (req_headers (sample_request ''POST'' ''good'' [])) ''x-encryption-key'' = None \<and>
   handleProxy sample_env (sample_request ''POST'' ''good'' []) ''/v1/hydrate'' =
     ([\<lparr>fc_url = ''https://api.neuralgraph.app/v1/hydrate'', fc_method = ''POST'',
        fc_headers = [(''X-API-Key'', ''secret''), (''Content-Type'', ''application/json''),
                      (''X-User-ID'', ''u1''), (''X-Tenant-ID'', ''t1'')],
        fc_body = Some (JObj [])\<rparr>],
      \<lparr>res_status = 200, res_headers = [(''Content-Type'', ''application/json'')],
        res_json = JObj []\<rparr>)"
  by code_simp

section \<open>The service worker never caches API and auth traffic\<close>

text \<open>
  C10. For a fetch event whose pathname starts with \<^verbatim>\<open>/api\<close> or whose hostname contains
  \<^verbatim>\<open>googleapis\<close> the listener does not intercept the event: it answers nothing from
  the cache and leaves the cache storage as it was.
\<close>

theorem sw_api_not_intercepted:
  "startsWith (ev_pathname ev) ''/api'' \<or> includes_str (ev_hostname ev) ''googleapis'' \<Longrightarrow>
   on_fetch b ev c = (NotIntercepted, c)"
  by (simp add: on_fetch_def)

text \<open>
  Witness for C10: an API call whose response is in the cache and a document request to
  Firebase's identity service are both left to the browser.
\<close>

theorem sw_api_not_intercepted_witness:
  "startsWith ''/api/v1/hydrate'' ''/api'' \<and>
   on_fetch sample_browser
     \<lparr>ev_pathname = ''/api/v1/hydrate'', ev_hostname = ''neuralgraph.app'', ev_destination = []\<rparr>
     [(''/api/v1/hydrate'', ''stored'')] =
       (NotIntercepted, [(''/api/v1/hydrate'', ''stored'')]) \<and>
   includes_str ''identitytoolkit.googleapis.com'' ''googleapis'' \<and>
   on_fetch sample_browser
     \<lparr>ev_pathname = ''/v1/accounts'', ev_hostname = ''identitytoolkit.googleapis.com'',
       ev_destination = ''document''\<rparr> [] = (NotIntercepted, [])"
proof -
  have a: "startsWith ''/api/v1/hydrate'' ''/api''" by (simp add: startsWith_def)
  have b: "includes_str ''identitytoolkit.googleapis.com'' ''googleapis''" by simp
  show ?thesis
    using a b
      sw_api_not_intercepted [of "\<lparr>ev_pathname = ''/api/v1/hydrate'', ev_hostname = ''neuralgraph.app'', ev_destination = []\<rparr>" sample_browser "[(''/api/v1/hydrate'', ''stored'')]"]
      sw_api_not_intercepted [of "\<lparr>ev_pathname = ''/v1/accounts'', ev_hostname = ''identitytoolkit.googleapis.com'', ev_destination = ''document''\<rparr>" sample_browser "[]"]
    by simp
qed

section \<open>Bounded retry in the Pending Action Queue\<close>

lemma wf_nth: "wf_queue q \<Longrightarrow> k < length q \<Longrightarrow> pa_id (q ! k) = k"
  unfolding wf_queue_def by (metis length_map nth_map nth_upt add_0)

lemma wf_mem: "wf_queue q \<Longrightarrow> a \<in> set q \<Longrightarrow> pa_id a < length q \<and> q ! pa_id a = a"
  by (metis in_set_conv_nth wf_nth)

lemma wf_map:
  "wf_queue q \<Longrightarrow> (\<And>a. pa_id (f a) = pa_id a) \<Longrightarrow> wf_queue (map f q)"
  by (simp add: wf_queue_def comp_def)

lemma wf_enqueue: "wf_queue q \<Longrightarrow> wf_queue (enqueue q now t k ts)"
  by (simp add: wf_queue_def enqueue_def)

lemma wf_step: "wf_queue q \<Longrightarrow> wf_queue (snd (step m q x))"
  by (cases x) (auto simp: wf_enqueue claimAll_def markDone_def markFailed_def fail_action_def intro!: wf_map)

lemma length_step: "length q \<le> length (snd (step m q x))"
  by (cases x) (auto simp: enqueue_def claimAll_def markDone_def markFailed_def)

lemma failed_step:
  "i < length q \<Longrightarrow> pa_status (q ! i) = Failed \<Longrightarrow> pa_status (snd (step m q x) ! i) = Failed"
  by (cases x) (auto simp: enqueue_def claimAll_def markDone_def markFailed_def claimable_def nth_append)

lemma claimed_step:
  assumes "wf_queue q" "i < length q" "pa_status (q ! i) = Failed" "a \<in> set (fst (step m q x))"
  shows "pa_id a \<noteq> i"
proof (cases x)
  case (ClaimAll t)
  then obtain b where b: "b \<in> set q" "claimable t b" "a = b\<lparr>pa_status := InProgress\<rparr>"
    using assms(4) by (auto simp: claimAll_def)
  show ?thesis
  proof
    assume "pa_id a = i"
    then have "pa_id b = i" using b by simp
    then have "q ! i = b" using wf_mem [OF assms(1) b(1)] by simp
    then show False using assms(3) b(2) by (simp add: claimable_def)
  qed
qed (use assms in auto)

lemma failed_run:
  "wf_queue q \<Longrightarrow> i < length q \<Longrightarrow> pa_status (q ! i) = Failed \<Longrightarrow>
   (\<forall>a \<in> set (fst (run m q ops)). pa_id a \<noteq> i) \<and>
   i < length (snd (run m q ops)) \<and> pa_status (snd (run m q ops) ! i) = Failed"
proof (induction ops arbitrary: q)
  case Nil
  then show ?case by simp
next
  case (Cons x xs)
  obtain c q' where s: "step m q x = (c, q')" by (cases "step m q x")
  have q': "wf_queue q'" "i < length q'" "pa_status (q' ! i) = Failed"
    using wf_step [OF Cons.prems(1), of m x] length_step [of q m x]
      failed_step [OF Cons.prems(2,3), of m x] Cons.prems(2) s by auto
  have c: "\<forall>a \<in> set c. pa_id a \<noteq> i"
    using claimed_step [OF Cons.prems, of _ m x] s by auto
  show ?case using Cons.IH [OF q'] c s by (auto simp: split_def Let_def)
qed


text \<open>
  C5. On the queue modelled from the spec: \<open>markFailed\<close> on a claimed action increments
  its attempt count; while the count is within the configured maximum the action is
  pending again and claimable by its tenant; once the count exceeds the maximum the
  action is failed, stays failed under every later sequence of calls, and no later
  \<open>claimAll\<close> returns it.
\<close>

theorem markFailed_bounded_retry:
  assumes "wf_queue q" and "i < length q" and "pa_status (q ! i) = InProgress"
  shows "pa_attempts (markFailed m q i ! i) = Suc (pa_attempts (q ! i)) \<and>
         (Suc (pa_attempts (q ! i)) \<le> m \<longrightarrow>
            pa_status (markFailed m q i ! i) = Pending \<and>
            markFailed m q i ! i \<in> set (filter (claimable (pa_tenant (q ! i))) (markFailed m q i))) \<and>
         (m < Suc (pa_attempts (q ! i)) \<longrightarrow>
            pa_status (markFailed m q i ! i) = Failed \<and>
            (\<forall>ops. (\<forall>a \<in> set (fst (run m (markFailed m q i) ops)). pa_id a \<noteq> i) \<and>
                   pa_status (snd (run m (markFailed m q i) ops) ! i) = Failed))"
proof -
  let ?q = "markFailed m q i"
  have id: "pa_id (q ! i) = i" using assms(1,2) by (rule wf_nth)
  have el: "?q ! i = fail_action m (q ! i)"
    using assms(2,3) id by (simp add: markFailed_def)
  have wf: "wf_queue ?q"
    using wf_step [OF assms(1), of m "MarkFailed i"] by simp
  have len: "i < length ?q" using assms(2) by (simp add: markFailed_def)
  have 1: "pa_attempts (?q ! i) = Suc (pa_attempts (q ! i))"
    by (simp add: el fail_action_def)
  have 2: "pa_status (?q ! i) = Pending \<and> ?q ! i \<in> set (filter (claimable (pa_tenant (q ! i))) ?q)"
    if "Suc (pa_attempts (q ! i)) \<le> m"
  proof -
    have p: "pa_status (?q ! i) = Pending" using that by (simp add: el fail_action_def)
    have t: "pa_tenant (?q ! i) = pa_tenant (q ! i)" by (simp add: el fail_action_def)
    have "?q ! i \<in> set ?q" using len by (rule nth_mem)
    then show ?thesis using p t by (simp add: claimable_def)
  qed
  have 3: "pa_status (?q ! i) = Failed \<and>
            (\<forall>ops. (\<forall>a \<in> set (fst (run m ?q ops)). pa_id a \<noteq> i) \<and>
                   pa_status (snd (run m ?q ops) ! i) = Failed)"
    if "m < Suc (pa_attempts (q ! i))"
  proof -
    have f: "pa_status (?q ! i) = Failed" using that by (simp add: el fail_action_def)
    show ?thesis using f failed_run [OF wf len f] by blast
  qed
  show ?thesis using 1 2 3 by blast
qed

text \<open>
  Witness for C5: with maximum 1 the second failure makes the action failed, and later
  claims by both tenants return only the other tenant's action; with maximum 2 the same
  failure returns it to pending.
\<close>

theorem markFailed_bounded_retry_witness:
  "wf_queue sample_queue \<and> pa_status (sample_queue ! 0) = InProgress \<and>
   pa_attempts (sample_queue ! 0) = 1 \<and>
   pa_attempts (markFailed 1 sample_queue 0 ! 0) = 2 \<and>
   pa_status (markFailed 1 sample_queue 0 ! 0) = Failed \<and>
   pa_status (markFailed 2 sample_queue 0 ! 0) = Pending \<and>
   map pa_id (fst (run 1 (markFailed 1 sample_queue 0) [ClaimAll ''t1'', ClaimAll ''t2''])) = [1]"
proof -
  have q: "sample_queue =
     [\<lparr>pa_id = 0, pa_tenant = ''t1'', pa_kind = MergeExecution,
       pa_targets = [''topic-a'', ''topic-b''], pa_enqueued = 10,
       pa_status = InProgress, pa_attempts = 1\<rparr>,
      \<lparr>pa_id = 1, pa_tenant = ''t2'', pa_kind = ReExtraction,
       pa_targets = [''topic-c''], pa_enqueued = 11,
       pa_status = Pending, pa_attempts = 0\<rparr>]"
    by code_simp
  have h: "wf_queue sample_queue" "0 < length sample_queue"
          "pa_status (sample_queue ! 0) = InProgress"
    by (simp_all add: q wf_queue_def upt_rec)
  have a: "pa_attempts (sample_queue ! 0) = 1" by (simp add: q)
  have c: "map pa_id (fst (run 1 (markFailed 1 sample_queue 0) [ClaimAll ''t1'', ClaimAll ''t2''])) = [1]"
    by code_simp
  show ?thesis
    using h a c markFailed_bounded_retry [OF h, of 1] markFailed_bounded_retry [OF h, of 2]
    by simp
qed

end
